theory Spec2Isabelle
  imports Main
begin

section \<open>The syntax tree read by the validator\<close>

text \<open>
  The validator of \<^verbatim>\<open>libsolidity/analysis/ImmutableValidator.cpp\<close> walks a tree that the
  front end has already typed and annotated.

  Modelled from the spec: the classes of the syntax tree and of the types are declared in
  headers that are not part of the source at hand. Each record below holds the members
  that the validator reads, under the accessor names it reads them by. Declarations are
  referred to by address, and the validator's two sets hold addresses; the model writes an
  address as a natural number.
\<close>

record SourceLocation =
  loc_start :: int
  loc_end :: int

text \<open>
  A variable declaration as far as the validator reads it: its address (\<open>var_id\<close>), whether
  it is a state variable, whether it is immutable, the id of the contract it is declared in
  (\<open>annotation().contract->id()\<close>) and its location.
\<close>

record VariableDeclaration =
  var_id :: nat
  isStateVariable :: bool
  immutable :: bool
  var_contract :: nat
  var_location :: SourceLocation

datatype FunctionKind = Internal | External | DelegateCall | Event | Declaration | OtherKind

text \<open>
  The types the validator tests for. A function type carries its kind and, when
  \<open>hasDeclaration()\<close> holds, the address of its declaration.
\<close>

datatype Type = FunctionType FunctionKind "nat option" | FixedBytesType nat | OtherType

text \<open>What \<open>annotation().referencedDeclaration\<close> points to (\<open>None\<close> is the null pointer).\<close>

datatype Declaration = CallableRef nat | VariableRef VariableDeclaration | OtherRef

record ExpressionAnnotation =
  exprType :: Type
  lValueRequested :: bool
  lValueOfOrdinaryAssignment :: bool
  referencedDeclaration :: "Declaration option"

text \<open>
  The node kinds the validator overrides \<open>visit\<close> for, and two generic ones: every other
  expression (\<open>Expression\<close>, with its type) and every other node (\<open>Statement\<close>), whose
  children the default visitor walks in order. An identifier and a member access carry
  their location and their annotation, a member access its member name and its operand, a
  return statement its location.
\<close>

datatype node =
    Identifier SourceLocation ExpressionAnnotation
  | MemberAccess SourceLocation ExpressionAnnotation string node
  | IfStatement node node "node option"
  | WhileStatement node node
  | Return SourceLocation "node option"
  | Expression Type "node list"
  | Statement "node list"

fun typeOf :: "node \<Rightarrow> Type" where
  "typeOf (Identifier loc ann) = exprType ann"
| "typeOf (MemberAccess loc ann name e) = exprType ann"
| "typeOf (Expression ty children) = ty"
| "typeOf _ = OtherType"

text \<open>
  A function definition: \<open>fun_contract\<close> is \<open>annotation().contract->id()\<close>, the two lists
  of type names are what \<open>hasEqualParameterTypes\<close> and \<open>hasEqualReturnTypes\<close> compare,
  \<open>modifiers\<close> are the modifier invocations (base constructor calls included), and the body
  is absent when the function is not implemented. A modifier definition always has a body.
\<close>

record FunctionDefinition =
  fun_name :: string
  fun_virtualSemantics :: bool
  fun_contract :: nat
  isConstructor :: bool
  parameterTypes :: "string list"
  returnParameterTypes :: "string list"
  modifiers :: "node list"
  fun_body :: "node option"

record ModifierDefinition =
  mod_name :: string
  mod_virtualSemantics :: bool
  mod_body :: node

datatype CallableDeclaration = Function FunctionDefinition | Modifier ModifierDefinition

text \<open>
  A contract of the hierarchy: its constructor if it has one, its functions and its
  modifiers by address, and its inheritance specifiers, each with the arguments it passes
  to the base constructor, if any.
\<close>

record InheritanceSpecifier =
  arguments :: "node list option"

record ContractDefinition =
  contract_constructor :: "nat option"
  definedFunctions :: "nat list"
  functionModifiers :: "nat list"
  baseContracts :: "InheritanceSpecifier list"

record StateVariable =
  var_decl :: VariableDeclaration
  var_value :: "node option"

text \<open>
  The contract under analysis (\<open>m_currentContract\<close>) with what the validator reads of it,
  and the callable declarations of the program by address.

  Modelled from the spec: \<open>linearizedBaseContracts\<close> is computed before the analysis and
  runs from the most derived contract, the contract under analysis itself, to the most
  base one.
\<close>

record Program =
  stateVariablesIncludingInherited :: "StateVariable list"
  linearizedBaseContracts :: "ContractDefinition list"
  contract_location :: SourceLocation
  callables :: "(nat \<times> CallableDeclaration) list"

section \<open>The validator's state\<close>

text \<open>One call of \<open>m_errorReporter.typeError\<close>: location, secondary locations, message.\<close>

record Error =
  err_location :: SourceLocation
  err_secondary :: "(string \<times> SourceLocation) list"
  err_message :: string

definition typeError :: "SourceLocation \<Rightarrow> string \<Rightarrow> Error" where
  "typeError loc msg = \<lparr>err_location = loc, err_secondary = [], err_message = msg\<rparr>"

definition msgNoConstructor :: string where
  "msgNoConstructor =
     ''Immutable variables can only be initialized inline or directly in the constructor.''"

definition msgOtherContract :: string where
  "msgOtherContract =
     ''Immutable variables must be initialized in the constructor of the contract they are defined in.''"

definition msgInLoop :: string where
  "msgInLoop = ''Immutable variables can only be initialized once, not in a while statement.''"

definition msgInBranch :: string where
  "msgInBranch =
     ''Immutable variables must be initialized unconditionally, not in an if statement.''"

definition msgNotInBody :: string where
  "msgNotInBody = ''Immutable variables must be initialized in the constructor body.''"

definition msgAlreadyInitialized :: string where
  "msgAlreadyInitialized = ''Immutable state variable already initialized.''"

definition msgRead :: string where
  "msgRead =
     ''Immutable variables cannot be read during contract creation time, which means they cannot be read in the constructor or any function or modifier called from it.''"

definition msgNotInitialized :: string where
  "msgNotInitialized =
     ''Construction controlflow ends without initializing all immutable state variables.''"

text \<open>
  The members of the validator object. The two sets hold addresses of declarations; the
  error reporter is the list of the errors reported so far, oldest first.
\<close>

record ImmutableValidator =
  currentConstructor :: "FunctionDefinition option"
  inLoop :: bool
  inBranch :: bool
  readingOfImmutableAllowed :: bool
  initializationOfImmutableAllowed :: bool
  visitedCallables :: "nat set"
  initializedStateVariables :: "nat set"
  errors :: "Error list"

definition report :: "Error \<Rightarrow> ImmutableValidator \<Rightarrow> ImmutableValidator" where
  "report e s = s\<lparr>errors := errors s @ [e]\<rparr>"

section \<open>The checks that do not descend\<close>

text \<open>The two \<open>dynamic_cast\<close>s applied to a referenced declaration.\<close>

fun asCallable :: "Declaration option \<Rightarrow> nat option" where
  "asCallable (Some (CallableRef c)) = Some c"
| "asCallable _ = None"

fun asVariable :: "Declaration option \<Rightarrow> VariableDeclaration option" where
  "asVariable (Some (VariableRef v)) = Some v"
| "asVariable _ = None"

fun isFunctionType :: "Type \<Rightarrow> bool" where
  "isFunctionType (FunctionType k d) = True"
| "isFunctionType _ = False"

fun isFixedBytesType :: "Type \<Rightarrow> bool" where
  "isFixedBytesType (FixedBytesType n) = True"
| "isFixedBytesType _ = False"

text \<open>
  \<open>analyseVariableDeclaration\<close>, given the declaration and the location and annotation of
  the expression that uses it. \<open>std::set::emplace\<close> inserts and answers whether the element
  was new.
\<close>

definition analyseVariableDeclaration ::
  "VariableDeclaration \<Rightarrow> SourceLocation \<Rightarrow> ExpressionAnnotation \<Rightarrow>
   ImmutableValidator \<Rightarrow> ImmutableValidator" where
  "analyseVariableDeclaration v loc ann s =
     (if \<not> isStateVariable v \<or> \<not> immutable v then s
      else if lValueRequested ann \<and> lValueOfOrdinaryAssignment ann then
        (let s1 =
           (case currentConstructor s of
              None \<Rightarrow> report (typeError loc msgNoConstructor) s
            | Some ctor \<Rightarrow>
                if fun_contract ctor \<noteq> var_contract v then
                  report (typeError loc msgOtherContract) s
                else if inLoop s then report (typeError loc msgInLoop) s
                else if inBranch s then report (typeError loc msgInBranch) s
                else if \<not> initializationOfImmutableAllowed s then
                  report (typeError loc msgNotInBody) s
                else s)
         in if var_id v \<in> initializedStateVariables s1 then
              report (typeError loc msgAlreadyInitialized) s1
            else s1\<lparr>initializedStateVariables := insert (var_id v) (initializedStateVariables s1)\<rparr>)
      else if \<not> readingOfImmutableAllowed s then report (typeError loc msgRead) s
      else s)"

text \<open>\<open>checkAllVariablesInitialized\<close>: one pass over the state variables of the contract.\<close>

definition notInitializedError :: "SourceLocation \<Rightarrow> VariableDeclaration \<Rightarrow> Error" where
  "notInitializedError loc v =
     \<lparr>err_location = loc,
      err_secondary = [(''Not initialized: '', var_location v)],
      err_message = msgNotInitialized\<rparr>"

fun checkVariables ::
  "SourceLocation \<Rightarrow> StateVariable list \<Rightarrow> ImmutableValidator \<Rightarrow> ImmutableValidator" where
  "checkVariables loc [] s = s"
| "checkVariables loc (x # xs) s =
     checkVariables loc xs
       (if immutable (var_decl x) then
          if var_id (var_decl x) \<notin> initializedStateVariables s then
            report (notInitializedError loc (var_decl x)) s
          else s
        else s)"

definition checkAllVariablesInitialized ::
  "Program \<Rightarrow> SourceLocation \<Rightarrow> ImmutableValidator \<Rightarrow> ImmutableValidator" where
  "checkAllVariablesInitialized p loc s =
     checkVariables loc (stateVariablesIncludingInherited p) s"

text \<open>
  \<open>findFinalOverride\<close>. The nested iteration returns at the first match, so it is a
  search through the functions (or modifiers) of the linearized base contracts, in list
  order. An address that holds no declaration does not occur in the source; the model
  leaves it as it is.
\<close>

definition sameSignature :: "Program \<Rightarrow> FunctionDefinition \<Rightarrow> nat \<Rightarrow> bool" where
  "sameSignature p origin c =
     (case map_of (callables p) c of
        Some (Function f) \<Rightarrow>
          fun_name f = fun_name origin \<and>
          returnParameterTypes f = returnParameterTypes origin \<and>
          parameterTypes f = parameterTypes origin
      | _ \<Rightarrow> False)"

definition sameModifierName :: "Program \<Rightarrow> ModifierDefinition \<Rightarrow> nat \<Rightarrow> bool" where
  "sameModifierName p origin c =
     (case map_of (callables p) c of
        Some (Modifier m) \<Rightarrow> mod_name origin = mod_name m
      | _ \<Rightarrow> False)"

definition findFinalOverride :: "Program \<Rightarrow> nat \<Rightarrow> nat" where
  "findFinalOverride p c =
     (case map_of (callables p) c of
        None \<Rightarrow> c
      | Some (Function origin) \<Rightarrow>
          if \<not> fun_virtualSemantics origin then c
          else (case find (sameSignature p origin)
                       (concat (map definedFunctions (linearizedBaseContracts p))) of
                  Some d \<Rightarrow> d
                | None \<Rightarrow> c)
      | Some (Modifier origin) \<Rightarrow>
          if \<not> mod_virtualSemantics origin then c
          else (case find (sameModifierName p origin)
                       (concat (map functionModifiers (linearizedBaseContracts p))) of
                  Some d \<Rightarrow> d
                | None \<Rightarrow> c))"

section \<open>The traversal\<close>

text \<open>
  \<open>accept\<close> is \<open>node.accept(*this)\<close> with the validator's \<open>visit\<close> overrides,
  \<open>listAccept\<close> is \<open>ASTNode::listAccept\<close>, \<open>visitCallable\<close> and \<open>analyseCallable\<close> are
  the member functions of those names. Accepting a function or modifier definition calls
  \<open>analyseCallable\<close> and, as that returns false, nothing else. A return statement outside a
  constructor answers true, so the default walk visits its expression. An address that
  holds no declaration does not occur in the source; \<open>visitCallable\<close> records it and walks
  nothing.
\<close>

function (sequential)
  accept :: "Program \<Rightarrow> node \<Rightarrow> ImmutableValidator \<Rightarrow> ImmutableValidator" and
  listAccept :: "Program \<Rightarrow> node list \<Rightarrow> ImmutableValidator \<Rightarrow> ImmutableValidator" and
  visitCallable :: "Program \<Rightarrow> nat \<Rightarrow> ImmutableValidator \<Rightarrow> ImmutableValidator" and
  analyseCallable ::
    "Program \<Rightarrow> CallableDeclaration \<Rightarrow> ImmutableValidator \<Rightarrow> ImmutableValidator"
where
  "accept p (Identifier loc ann) s =
     (let s1 = (case asCallable (referencedDeclaration ann) of
                  Some c \<Rightarrow> visitCallable p (findFinalOverride p c) s
                | None \<Rightarrow> s)
      in case asVariable (referencedDeclaration ann) of
           Some v \<Rightarrow> analyseVariableDeclaration v loc ann s1
         | None \<Rightarrow> s1)"
| "accept p (MemberAccess loc ann name e) s =
     (if name = ''selector'' \<and> isFunctionType (typeOf e) \<and> isFixedBytesType (exprType ann)
      then s
      else
        (let s1 = accept p e s
         in case asVariable (referencedDeclaration ann) of
              Some v \<Rightarrow> analyseVariableDeclaration v loc ann s1
            | None \<Rightarrow>
                (case exprType ann of
                   FunctionType k (Some d) \<Rightarrow>
                     if k = Internal \<or> k = Declaration then visitCallable p d s1 else s1
                 | _ \<Rightarrow> s1)))"
| "accept p (IfStatement c t f) s =
     (let prevInBranch = inBranch s;
          s1 = accept p c s;
          s2 = accept p t (s1\<lparr>inBranch := True\<rparr>);
          s3 = (case f of Some e \<Rightarrow> accept p e s2 | None \<Rightarrow> s2)
      in s3\<lparr>inBranch := prevInBranch\<rparr>)"
| "accept p (WhileStatement c b) s =
     (let prevInLoop = inLoop s;
          s1 = accept p c (s\<lparr>inLoop := True\<rparr>);
          s2 = accept p b s1
      in s2\<lparr>inLoop := prevInLoop\<rparr>)"
| "accept p (Return loc e) s =
     (if currentConstructor s = None then
        (case e of Some x \<Rightarrow> accept p x s | None \<Rightarrow> s)
      else
        checkAllVariablesInitialized p loc
          (case e of Some x \<Rightarrow> accept p x s | None \<Rightarrow> s))"
| "accept p (Expression ty children) s = listAccept p children s"
| "accept p (Statement children) s = listAccept p children s"
| "listAccept p [] s = s"
| "listAccept p (n # ns) s = listAccept p ns (accept p n s)"
| "visitCallable p c s =
     (if c \<in> visitedCallables s then s
      else
        (let s1 = s\<lparr>visitedCallables := insert c (visitedCallables s)\<rparr>
         in case map_of (callables p) c of
              Some d \<Rightarrow> analyseCallable p d s1
            | None \<Rightarrow> s1))"
| "analyseCallable p (Function f) s =
     (let prevConstructor = currentConstructor s;
          s0 = s\<lparr>currentConstructor := None\<rparr>;
          s1 = (if isConstructor f then s0\<lparr>currentConstructor := Some f\<rparr> else s0);
          previousInitAllowed = initializationOfImmutableAllowed s1;
          s2 = listAccept p (modifiers f) (s1\<lparr>initializationOfImmutableAllowed := False\<rparr>);
          s3 = s2\<lparr>initializationOfImmutableAllowed := previousInitAllowed\<rparr>;
          s4 = (case fun_body f of Some b \<Rightarrow> accept p b s3 | None \<Rightarrow> s3)
      in s4\<lparr>currentConstructor := prevConstructor\<rparr>)"
| "analyseCallable p (Modifier m) s =
     (let prevConstructor = currentConstructor s;
          s1 = accept p (mod_body m) (s\<lparr>currentConstructor := None\<rparr>)
      in s1\<lparr>currentConstructor := prevConstructor\<rparr>)"
  by pat_completeness auto

section \<open>The four phases of \<open>analyze\<close>\<close>

text \<open>
  \<open>solAssert\<close> is a macro declared outside this file; it throws an internal compiler error
  when its condition is false. The assertion of \<open>visitCallable\<close>, that the declaration is a
  callable, holds by the type of its argument in the model; the one of the first loop of
  \<open>analyze\<close> is a branch of the model.
\<close>

datatype error = AssertionFailed

text \<open>The first loop of \<open>analyze\<close>: the inline initializers of the state variables.\<close>

fun inlineInitializers ::
  "Program \<Rightarrow> StateVariable list \<Rightarrow> ImmutableValidator \<Rightarrow> error + ImmutableValidator" where
  "inlineInitializers p [] s = Inr s"
| "inlineInitializers p (x # xs) s =
     (case var_value x of
        None \<Rightarrow> inlineInitializers p xs s
      | Some e \<Rightarrow>
          (let s1 = accept p e s
           in if var_id (var_decl x) \<in> initializedStateVariables s1 then Inl AssertionFailed
              else inlineInitializers p xs
                     (s1\<lparr>initializedStateVariables :=
                           insert (var_id (var_decl x)) (initializedStateVariables s1)\<rparr>)))"

text \<open>The second loop: the constructor of each contract of the given range.\<close>

fun visitConstructors ::
  "Program \<Rightarrow> ContractDefinition list \<Rightarrow> ImmutableValidator \<Rightarrow> ImmutableValidator" where
  "visitConstructors p [] s = s"
| "visitConstructors p (c # cs) s =
     visitConstructors p cs
       (case contract_constructor c of Some k \<Rightarrow> visitCallable p k s | None \<Rightarrow> s)"

text \<open>The third loop: the arguments of the inheritance specifiers.\<close>

fun visitSpecifiers ::
  "Program \<Rightarrow> InheritanceSpecifier list \<Rightarrow> ImmutableValidator \<Rightarrow> ImmutableValidator" where
  "visitSpecifiers p [] s = s"
| "visitSpecifiers p (i # is) s =
     visitSpecifiers p is
       (case arguments i of Some args \<Rightarrow> listAccept p args s | None \<Rightarrow> s)"

fun visitBaseArguments ::
  "Program \<Rightarrow> ContractDefinition list \<Rightarrow> ImmutableValidator \<Rightarrow> ImmutableValidator" where
  "visitBaseArguments p [] s = s"
| "visitBaseArguments p (c # cs) s =
     visitBaseArguments p cs (visitSpecifiers p (baseContracts c) s)"

text \<open>The fourth loop: the functions, then the modifiers, of each contract.\<close>

fun visitCallables ::
  "Program \<Rightarrow> nat list \<Rightarrow> ImmutableValidator \<Rightarrow> ImmutableValidator" where
  "visitCallables p [] s = s"
| "visitCallables p (c # cs) s = visitCallables p cs (visitCallable p c s)"

definition visitContract ::
  "Program \<Rightarrow> ContractDefinition \<Rightarrow> ImmutableValidator \<Rightarrow> ImmutableValidator" where
  "visitContract p c s =
     visitCallables p (functionModifiers c) (visitCallables p (definedFunctions c) s)"

fun visitFunctionsAndModifiers ::
  "Program \<Rightarrow> ContractDefinition list \<Rightarrow> ImmutableValidator \<Rightarrow> ImmutableValidator" where
  "visitFunctionsAndModifiers p [] s = s"
| "visitFunctionsAndModifiers p (c # cs) s =
     visitFunctionsAndModifiers p cs (visitContract p c s)"

text \<open>
  \<open>analyze\<close>. The range \<open>linearizeContracts\<close> is the linearized base list reversed, and the
  three iterations over contracts all run over it.
\<close>

definition analyze :: "Program \<Rightarrow> ImmutableValidator \<Rightarrow> error + ImmutableValidator" where
  "analyze p s =
     (case inlineInitializers p (stateVariablesIncludingInherited p)
             (s\<lparr>readingOfImmutableAllowed := False,
                initializationOfImmutableAllowed := True\<rparr>) of
        Inl e \<Rightarrow> Inl e
      | Inr s1 \<Rightarrow>
          (let linearizeContracts = rev (linearizedBaseContracts p);
               s2 = visitConstructors p linearizeContracts s1;
               s3 = visitBaseArguments p linearizeContracts
                      (s2\<lparr>initializationOfImmutableAllowed := False\<rparr>);
               s4 = visitFunctionsAndModifiers p linearizeContracts
                      (s3\<lparr>readingOfImmutableAllowed := True\<rparr>)
           in Inr (checkAllVariablesInitialized p (contract_location p) s4)))"

text \<open>
  Modelled from the spec: a validator object before \<open>analyze\<close> runs has both sets empty,
  nothing reported, no current constructor, and is outside every loop and branch.
  \<open>analyze\<close> sets the two phase flags itself.
\<close>

definition newValidator :: ImmutableValidator where
  "newValidator =
     \<lparr>currentConstructor = None, inLoop = False, inBranch = False,
      readingOfImmutableAllowed = False, initializationOfImmutableAllowed = False,
      visitedCallables = {}, initializedStateVariables = {}, errors = []\<rparr>"

text \<open>
  The context of a walk: the current constructor and the four flags.
\<close>

definition sameContext :: "ImmutableValidator \<Rightarrow> ImmutableValidator \<Rightarrow> bool" where
  "sameContext s s' =
     (currentConstructor s' = currentConstructor s \<and> inLoop s' = inLoop s \<and>
      inBranch s' = inBranch s \<and>
      readingOfImmutableAllowed s' = readingOfImmutableAllowed s \<and>
      initializationOfImmutableAllowed s' = initializationOfImmutableAllowed s)"

section \<open>The rules as the specification words them\<close>

text \<open>
  The five conditions of a plain write, in the order the specification lists them, each
  with its message; the violation of a write is the first one that holds.
\<close>

definition plainWriteConditions ::
  "VariableDeclaration \<Rightarrow> ImmutableValidator \<Rightarrow> (bool \<times> string) list" where
  "plainWriteConditions v s =
     [(currentConstructor s = None, msgNoConstructor),
      (case currentConstructor s of
         None \<Rightarrow> False
       | Some ctor \<Rightarrow> fun_contract ctor \<noteq> var_contract v, msgOtherContract),
      (inLoop s, msgInLoop),
      (inBranch s, msgInBranch),
      (\<not> initializationOfImmutableAllowed s, msgNotInBody)]"

definition plainWriteViolation ::
  "VariableDeclaration \<Rightarrow> ImmutableValidator \<Rightarrow> string option" where
  "plainWriteViolation v s = map_option snd (find fst (plainWriteConditions v s))"

section \<open>A small hierarchy to run the validator on\<close>

text \<open>
  Contract \<open>Base\<close> (id 1) declares the immutable \<open>x\<close> and a virtual function \<open>f\<close> that
  reads it; contract \<open>Derived\<close> (id 2) overrides \<open>f\<close> with an empty body.
\<close>

definition exVar :: VariableDeclaration where
  "exVar = \<lparr>var_id = 1, isStateVariable = True, immutable = True, var_contract = 1,
            var_location = \<lparr>loc_start = 10, loc_end = 30\<rparr>\<rparr>"

definition exPlain :: VariableDeclaration where
  "exPlain = \<lparr>var_id = 2, isStateVariable = True, immutable = False, var_contract = 1,
              var_location = \<lparr>loc_start = 31, loc_end = 50\<rparr>\<rparr>"

definition exLoc :: SourceLocation where
  "exLoc = \<lparr>loc_start = 100, loc_end = 101\<rparr>"

definition exWrite :: ExpressionAnnotation where
  "exWrite = \<lparr>exprType = OtherType, lValueRequested = True,
              lValueOfOrdinaryAssignment = True,
              referencedDeclaration = Some (VariableRef exVar)\<rparr>"

definition exRead :: ExpressionAnnotation where
  "exRead = \<lparr>exprType = OtherType, lValueRequested = False,
             lValueOfOrdinaryAssignment = False,
             referencedDeclaration = Some (VariableRef exVar)\<rparr>"

definition exCompound :: ExpressionAnnotation where
  "exCompound = \<lparr>exprType = OtherType, lValueRequested = True,
                 lValueOfOrdinaryAssignment = False,
                 referencedDeclaration = Some (VariableRef exVar)\<rparr>"

definition exCtor :: FunctionDefinition where
  "exCtor = \<lparr>fun_name = [], fun_virtualSemantics = False, fun_contract = 1,
             isConstructor = True, parameterTypes = [], returnParameterTypes = [],
             modifiers = [], fun_body = Some (Statement [])\<rparr>"

definition exBaseF :: FunctionDefinition where
  "exBaseF = \<lparr>fun_name = ''f'', fun_virtualSemantics = True, fun_contract = 1,
              isConstructor = False, parameterTypes = [], returnParameterTypes = [],
              modifiers = [], fun_body = Some (Statement [Identifier exLoc exRead])\<rparr>"

definition exDerivedF :: FunctionDefinition where
  "exDerivedF = \<lparr>fun_name = ''f'', fun_virtualSemantics = True, fun_contract = 2,
                 isConstructor = False, parameterTypes = [], returnParameterTypes = [],
                 modifiers = [], fun_body = Some (Statement [])\<rparr>"

definition exBase :: ContractDefinition where
  "exBase = \<lparr>contract_constructor = Some 3, definedFunctions = [3, 1],
             functionModifiers = [], baseContracts = []\<rparr>"

definition exDerived :: ContractDefinition where
  "exDerived = \<lparr>contract_constructor = None, definedFunctions = [2],
                functionModifiers = [], baseContracts = [\<lparr>arguments = None\<rparr>]\<rparr>"

definition exProgram :: Program where
  "exProgram =
     \<lparr>stateVariablesIncludingInherited =
        [\<lparr>var_decl = exVar, var_value = None\<rparr>,
         \<lparr>var_decl = exPlain, var_value = Some (Expression OtherType [])\<rparr>],
      linearizedBaseContracts = [exDerived, exBase],
      contract_location = \<lparr>loc_start = 0, loc_end = 200\<rparr>,
      callables = [(1, Function exBaseF), (2, Function exDerivedF), (3, Function exCtor)]\<rparr>"

text \<open>
  A hierarchy with modifiers: the derived contract (first in the list) overrides the
  virtual modifier \<open>m\<close> of the base; \<open>n\<close> is not virtual.
\<close>

definition exDerivedM :: ModifierDefinition where
  "exDerivedM = \<lparr>mod_name = ''m'', mod_virtualSemantics = True, mod_body = Statement []\<rparr>"

definition exBaseM :: ModifierDefinition where
  "exBaseM = \<lparr>mod_name = ''m'', mod_virtualSemantics = True,
              mod_body = Statement [Identifier exLoc exRead]\<rparr>"

definition exOtherM :: ModifierDefinition where
  "exOtherM = \<lparr>mod_name = ''n'', mod_virtualSemantics = False, mod_body = Statement []\<rparr>"

definition exModifiers :: Program where
  "exModifiers =
     \<lparr>stateVariablesIncludingInherited = [\<lparr>var_decl = exVar, var_value = None\<rparr>],
      linearizedBaseContracts =
        [\<lparr>contract_constructor = None, definedFunctions = [], functionModifiers = [4],
          baseContracts = [\<lparr>arguments = None\<rparr>]\<rparr>,
         \<lparr>contract_constructor = None, definedFunctions = [], functionModifiers = [6, 5],
          baseContracts = []\<rparr>],
      contract_location = \<lparr>loc_start = 0, loc_end = 200\<rparr>,
      callables = [(4, Modifier exDerivedM), (5, Modifier exBaseM), (6, Modifier exOtherM)]\<rparr>"

text \<open>
  A hierarchy with lookalikes, most derived first: \<open>Derived\<close>, \<open>Middle\<close>, \<open>Base\<close>.
  \<open>Base\<close> declares the virtual function \<open>f(uint256)\<close> (address 20) and the virtual
  modifier \<open>m\<close> (address 30). \<open>Derived\<close> declares three functions that are not overrides
  of it: \<open>g(uint256)\<close> with another name, \<open>f(bool)\<close> with another parameter type,
  \<open>f(uint256) returns (uint256)\<close> with another return type; and the modifier \<open>n\<close>.
  \<open>Middle\<close> declares the override \<open>f(uint256)\<close> (address 24) and the override of \<open>m\<close>
  (address 32).
\<close>

definition exSignature ::
  "string \<Rightarrow> string list \<Rightarrow> string list \<Rightarrow> nat \<Rightarrow> FunctionDefinition" where
  "exSignature name params returns contract =
     \<lparr>fun_name = name, fun_virtualSemantics = True, fun_contract = contract,
      isConstructor = False, parameterTypes = params, returnParameterTypes = returns,
      modifiers = [], fun_body = Some (Statement [])\<rparr>"

definition exNamed :: "string \<Rightarrow> ModifierDefinition" where
  "exNamed name = \<lparr>mod_name = name, mod_virtualSemantics = True, mod_body = Statement []\<rparr>"

definition exLookalikesDerived :: ContractDefinition where
  "exLookalikesDerived =
     \<lparr>contract_constructor = None, definedFunctions = [21, 22, 23],
      functionModifiers = [31], baseContracts = [\<lparr>arguments = None\<rparr>]\<rparr>"

definition exLookalikes :: Program where
  "exLookalikes =
     \<lparr>stateVariablesIncludingInherited = [],
      linearizedBaseContracts =
        [exLookalikesDerived,
         \<lparr>contract_constructor = None, definedFunctions = [24], functionModifiers = [32],
          baseContracts = [\<lparr>arguments = None\<rparr>]\<rparr>,
         \<lparr>contract_constructor = None, definedFunctions = [20], functionModifiers = [30],
          baseContracts = []\<rparr>],
      contract_location = \<lparr>loc_start = 0, loc_end = 400\<rparr>,
      callables =
        [(20, Function (exSignature ''f'' [''uint256''] [] 1)),
         (21, Function (exSignature ''g'' [''uint256''] [] 3)),
         (22, Function (exSignature ''f'' [''bool''] [] 3)),
         (23, Function (exSignature ''f'' [''uint256''] [''uint256''] 3)),
         (24, Function (exSignature ''f'' [''uint256''] [] 2)),
         (30, Modifier (exNamed ''m'')),
         (31, Modifier (exNamed ''n'')),
         (32, Modifier (exNamed ''m''))]\<rparr>"

text \<open>The same hierarchy cut down to \<open>Derived\<close>: no override of \<open>f\<close> or \<open>m\<close> is left.\<close>

definition exLookalikesOnly :: Program where
  "exLookalikesOnly = exLookalikes\<lparr>linearizedBaseContracts := [exLookalikesDerived]\<rparr>"

text \<open>
  Three ways to name \<open>Base.f\<close>: by identifier, by member access, and under \<open>.selector\<close>.
\<close>

definition exCallF :: node where
  "exCallF = Identifier exLoc
     \<lparr>exprType = FunctionType Internal (Some 1), lValueRequested = False,
      lValueOfOrdinaryAssignment = False, referencedDeclaration = Some (CallableRef 1)\<rparr>"

definition exBaseName :: node where
  "exBaseName = Identifier exLoc
     \<lparr>exprType = OtherType, lValueRequested = False,
      lValueOfOrdinaryAssignment = False, referencedDeclaration = Some OtherRef\<rparr>"

definition exAccessF :: node where
  "exAccessF = MemberAccess exLoc
     \<lparr>exprType = FunctionType Internal (Some 1), lValueRequested = False,
      lValueOfOrdinaryAssignment = False, referencedDeclaration = Some (CallableRef 1)\<rparr>
     ''f'' exBaseName"

definition exSelectorAnnotation :: ExpressionAnnotation where
  "exSelectorAnnotation =
     \<lparr>exprType = FixedBytesType 4, lValueRequested = False,
      lValueOfOrdinaryAssignment = False, referencedDeclaration = None\<rparr>"

text \<open>The statement \<open>if (x = ..) x = ..; else x = ..;\<close> with the three writes told apart by location.\<close>

definition exIf :: node where
  "exIf = IfStatement
     (Identifier \<lparr>loc_start = 1, loc_end = 2\<rparr> exWrite)
     (Identifier \<lparr>loc_start = 3, loc_end = 4\<rparr> exWrite)
     (Some (Identifier \<lparr>loc_start = 5, loc_end = 6\<rparr> exWrite))"

definition exInConstructor :: ImmutableValidator where
  "exInConstructor =
     newValidator\<lparr>currentConstructor := Some exCtor,
                  initializationOfImmutableAllowed := True\<rparr>"

text \<open>The hierarchy with \<open>Base\<close> alone: nothing overrides \<open>f\<close>.\<close>

definition exBaseOnly :: Program where
  "exBaseOnly = exProgram\<lparr>linearizedBaseContracts := [exBase]\<rparr>"

text \<open>
  A hierarchy of three contracts, most derived first: \<open>Derived\<close>, \<open>Base\<close>, \<open>Root\<close>.
  \<open>Derived\<close> passes \<open>x\<close> to the constructor of \<open>Base\<close> and \<open>Base\<close> passes it on to
  \<open>Root\<close>; each of the two has one function that assigns to \<open>x\<close>. The four uses of \<open>x\<close> are
  told apart by their locations.
\<close>

definition locBaseArgument :: SourceLocation where
  "locBaseArgument = \<lparr>loc_start = 110, loc_end = 111\<rparr>"

definition locDerivedArgument :: SourceLocation where
  "locDerivedArgument = \<lparr>loc_start = 210, loc_end = 211\<rparr>"

definition locBaseFunction :: SourceLocation where
  "locBaseFunction = \<lparr>loc_start = 120, loc_end = 121\<rparr>"

definition locDerivedFunction :: SourceLocation where
  "locDerivedFunction = \<lparr>loc_start = 220, loc_end = 221\<rparr>"

definition exAssigning :: "string \<Rightarrow> nat \<Rightarrow> SourceLocation \<Rightarrow> FunctionDefinition" where
  "exAssigning name contract loc =
     \<lparr>fun_name = name, fun_virtualSemantics = False, fun_contract = contract,
      isConstructor = False, parameterTypes = [], returnParameterTypes = [],
      modifiers = [],
      fun_body = Some (Statement [Expression OtherType [Identifier loc exWrite]])\<rparr>"

definition exOrder :: Program where
  "exOrder =
     \<lparr>stateVariablesIncludingInherited = [\<lparr>var_decl = exVar, var_value = None\<rparr>],
      linearizedBaseContracts =
        [\<lparr>contract_constructor = None, definedFunctions = [12], functionModifiers = [],
          baseContracts = [\<lparr>arguments = Some [Identifier locDerivedArgument exRead]\<rparr>]\<rparr>,
         \<lparr>contract_constructor = None, definedFunctions = [11], functionModifiers = [],
          baseContracts = [\<lparr>arguments = Some [Identifier locBaseArgument exRead]\<rparr>]\<rparr>,
         \<lparr>contract_constructor = None, definedFunctions = [], functionModifiers = [],
          baseContracts = []\<rparr>],
      contract_location = \<lparr>loc_start = 0, loc_end = 300\<rparr>,
      callables =
        [(11, Function (exAssigning ''g'' 1 locBaseFunction)),
         (12, Function (exAssigning ''h'' 2 locDerivedFunction))]\<rparr>"

text \<open>
  \<open>analyze\<close> as the specification words its phases 3 and 4: the base-constructor
  arguments and the functions and modifiers are taken from the linearized base list most
  derived first, the constructors (phase 2) most base first.
\<close>

definition analyzeAsSpecified ::
  "Program \<Rightarrow> ImmutableValidator \<Rightarrow> error + ImmutableValidator" where
  "analyzeAsSpecified p s =
     (case inlineInitializers p (stateVariablesIncludingInherited p)
             (s\<lparr>readingOfImmutableAllowed := False,
                initializationOfImmutableAllowed := True\<rparr>) of
        Inl e \<Rightarrow> Inl e
      | Inr s1 \<Rightarrow>
          (let s2 = visitConstructors p (rev (linearizedBaseContracts p)) s1;
               s3 = visitBaseArguments p (linearizedBaseContracts p)
                      (s2\<lparr>initializationOfImmutableAllowed := False\<rparr>);
               s4 = visitFunctionsAndModifiers p (linearizedBaseContracts p)
                      (s3\<lparr>readingOfImmutableAllowed := True\<rparr>)
           in Inr (checkAllVariablesInitialized p (contract_location p) s4)))"

text \<open>The locations of the errors of a run, in the order they were reported.\<close>

definition reportedAt :: "error + ImmutableValidator \<Rightarrow> SourceLocation list" where
  "reportedAt r = (case r of Inl e \<Rightarrow> [] | Inr s \<Rightarrow> map err_location (errors s))"

text \<open>The validator with the addresses \<open>N\<close> added to its initialized set.\<close>

definition withInitialized :: "nat set \<Rightarrow> ImmutableValidator \<Rightarrow> ImmutableValidator" where
  "withInitialized N s =
     s\<lparr>initializedStateVariables := initializedStateVariables s \<union> N\<rparr>"




section \<open>Termination of the walk\<close>

text \<open>
  The walk ends: a callable is entered only when its address is new to
  \<open>m_visitedCallables\<close>, and the set never loses an element.
\<close>

lemma visited_report [simp]: "visitedCallables (report e s) = visitedCallables s"
  by (simp add: report_def)

lemma visited_analyseVariableDeclaration [simp]:
  "visitedCallables (analyseVariableDeclaration v loc ann s) = visitedCallables s"
  by (simp add: analyseVariableDeclaration_def Let_def split: option.splits)

lemma visited_checkVariables [simp]:
  "visitedCallables (checkVariables loc xs s) = visitedCallables s"
  by (induction xs arbitrary: s) simp_all

lemma visited_checkAllVariablesInitialized [simp]:
  "visitedCallables (checkAllVariablesInitialized p loc s) = visitedCallables s"
  by (simp add: checkAllVariablesInitialized_def)

lemma visited_mono_partial:
  "accept_listAccept_visitCallable_analyseCallable_dom (Inl (Inl (p, n, s))) \<Longrightarrow>
     visitedCallables s \<subseteq> visitedCallables (accept p n s)"
  "accept_listAccept_visitCallable_analyseCallable_dom (Inl (Inr (p, ns, s))) \<Longrightarrow>
     visitedCallables s \<subseteq> visitedCallables (listAccept p ns s)"
  "accept_listAccept_visitCallable_analyseCallable_dom (Inr (Inl (p, c, s))) \<Longrightarrow>
     visitedCallables s \<subseteq> visitedCallables (visitCallable p c s)"
  "accept_listAccept_visitCallable_analyseCallable_dom (Inr (Inr (p, d, s))) \<Longrightarrow>
     visitedCallables s \<subseteq> visitedCallables (analyseCallable p d s)"
proof (induct rule: accept_listAccept_visitCallable_analyseCallable.pinduct)
  case (1 p loc ann s)
  then show ?case
    by (cases "asCallable (referencedDeclaration ann)";
        cases "asVariable (referencedDeclaration ann)")
       (simp_all add: accept.psimps)
next
  case (2 p loc ann name e s)
  then show ?case
    by (fastforce simp: accept.psimps Let_def split: option.splits Type.splits)
next
  case (3 p c t f s)
  then show ?case
    by (fastforce simp: accept.psimps Let_def split: option.splits)
next
  case (4 p c b s)
  then show ?case
    by (fastforce simp: accept.psimps Let_def)
next
  case (5 p loc e s)
  then show ?case
    by (auto simp: accept.psimps split: option.splits)
next
  case (10 p c s)
  then show ?case
    by (auto simp: visitCallable.psimps Let_def split: option.splits)
next
  case (11 p f s)
  then show ?case
    by (fastforce simp: analyseCallable.psimps Let_def split: option.splits)
next
  case (12 p m s)
  then show ?case
    by (fastforce simp: analyseCallable.psimps Let_def)
qed (auto simp: accept.psimps listAccept.psimps)

lemma unvisited_less:
  assumes "visitedCallables s \<subseteq> visitedCallables s'"
    and "card (fst ` set (callables p) - visitedCallables s') \<noteq>
         card (fst ` set (callables p) - visitedCallables s)"
  shows "card (fst ` set (callables p) - visitedCallables s') <
         card (fst ` set (callables p) - visitedCallables s)"
proof -
  have "card (fst ` set (callables p) - visitedCallables s') \<le>
        card (fst ` set (callables p) - visitedCallables s)"
    by (rule card_mono) (use assms(1) in auto)
  with assms(2) show ?thesis by simp
qed

lemma unvisited_insert:
  assumes "map_of (callables p) c = Some d" and "c \<notin> visitedCallables s"
  shows "card (fst ` set (callables p) - insert c (visitedCallables s)) <
         card (fst ` set (callables p) - visitedCallables s)"
proof (rule psubset_card_mono)
  have "c \<in> fst ` set (callables p)"
    using assms(1) by (metis map_of_SomeD fst_conv image_eqI)
  then show "fst ` set (callables p) - insert c (visitedCallables s)
             \<subset> fst ` set (callables p) - visitedCallables s"
    using assms(2) by auto
qed simp

termination accept
  apply (relation "inv_image (less_than <*lex*> less_than)
    (\<lambda>x. case x of
       Inl (Inl (p, n, s)) \<Rightarrow>
         (card (fst ` set (callables p) - visitedCallables s), Suc (size n))
     | Inl (Inr (p, ns, s)) \<Rightarrow>
         (card (fst ` set (callables p) - visitedCallables s), Suc (size_list size ns))
     | Inr (Inl (p, c, s)) \<Rightarrow>
         (card (fst ` set (callables p) - visitedCallables s), 0)
     | Inr (Inr (p, d, s)) \<Rightarrow>
         (card (fst ` set (callables p) - visitedCallables s),
          (case d of
             Function f \<Rightarrow>
               Suc (Suc (size_list size (modifiers f) + size_option size (fun_body f)))
           | Modifier m \<Rightarrow> Suc (Suc (size (mod_body m))))))")
   apply (auto intro!: unvisited_less unvisited_insert dest!: visited_mono_partial)
  apply blast
  done

section \<open>Induction over the walk\<close>

text \<open>
  The induction rule of the walk, with the local variables of each function replaced by
  the values they hold.
\<close>

lemma traversal_induct [case_names Identifier MemberAccess IfStatement WhileStatement Return
    Expression Statement Nil Cons visitCallable Function Modifier]:
  fixes P :: "Program \<Rightarrow> node \<Rightarrow> ImmutableValidator \<Rightarrow> bool"
    and Q :: "Program \<Rightarrow> node list \<Rightarrow> ImmutableValidator \<Rightarrow> bool"
    and R :: "Program \<Rightarrow> nat \<Rightarrow> ImmutableValidator \<Rightarrow> bool"
    and S :: "Program \<Rightarrow> CallableDeclaration \<Rightarrow> ImmutableValidator \<Rightarrow> bool"
  assumes ident: "\<And>p loc ann s.
      (\<And>c. asCallable (referencedDeclaration ann) = Some c \<Longrightarrow>
         R p (findFinalOverride p c) s) \<Longrightarrow>
      P p (Identifier loc ann) s"
    and member: "\<And>p loc ann name e s.
      (\<not> (name = ''selector'' \<and> isFunctionType (typeOf e) \<and>
          isFixedBytesType (exprType ann)) \<Longrightarrow> P p e s) \<Longrightarrow>
      (\<And>k d. \<not> (name = ''selector'' \<and> isFunctionType (typeOf e) \<and>
               isFixedBytesType (exprType ann)) \<Longrightarrow>
         asVariable (referencedDeclaration ann) = None \<Longrightarrow>
         exprType ann = FunctionType k (Some d) \<Longrightarrow> k = Internal \<or> k = Declaration \<Longrightarrow>
         R p d (accept p e s)) \<Longrightarrow>
      P p (MemberAccess loc ann name e) s"
    and ifs: "\<And>p c t f s.
      P p c s \<Longrightarrow>
      P p t ((accept p c s)\<lparr>inBranch := True\<rparr>) \<Longrightarrow>
      (\<And>e. f = Some e \<Longrightarrow> P p e (accept p t ((accept p c s)\<lparr>inBranch := True\<rparr>))) \<Longrightarrow>
      P p (IfStatement c t f) s"
    and whiles: "\<And>p c b s.
      P p c (s\<lparr>inLoop := True\<rparr>) \<Longrightarrow>
      P p b (accept p c (s\<lparr>inLoop := True\<rparr>)) \<Longrightarrow>
      P p (WhileStatement c b) s"
    and return: "\<And>p loc e s.
      (\<And>x. e = Some x \<Longrightarrow> P p x s) \<Longrightarrow> P p (Return loc e) s"
    and expr: "\<And>p ty children s. Q p children s \<Longrightarrow> P p (Expression ty children) s"
    and stmt: "\<And>p children s. Q p children s \<Longrightarrow> P p (Statement children) s"
    and nil: "\<And>p s. Q p [] s"
    and cons: "\<And>p n ns s. P p n s \<Longrightarrow> Q p ns (accept p n s) \<Longrightarrow> Q p (n # ns) s"
    and callable: "\<And>p c s.
      (\<And>d. c \<notin> visitedCallables s \<Longrightarrow> map_of (callables p) c = Some d \<Longrightarrow>
         S p d (s\<lparr>visitedCallables := insert c (visitedCallables s)\<rparr>)) \<Longrightarrow>
      R p c s"
    and func: "\<And>p f s.
      Q p (modifiers f)
        (s\<lparr>currentConstructor := (if isConstructor f then Some f else None),
           initializationOfImmutableAllowed := False\<rparr>) \<Longrightarrow>
      (\<And>b. fun_body f = Some b \<Longrightarrow>
         P p b ((listAccept p (modifiers f)
                  (s\<lparr>currentConstructor := (if isConstructor f then Some f else None),
                     initializationOfImmutableAllowed := False\<rparr>))
                \<lparr>initializationOfImmutableAllowed := initializationOfImmutableAllowed s\<rparr>)) \<Longrightarrow>
      S p (Function f) s"
    and modi: "\<And>p m s.
      P p (mod_body m) (s\<lparr>currentConstructor := None\<rparr>) \<Longrightarrow> S p (Modifier m) s"
  shows "P p n s" and "Q p ns s" and "R p c s" and "S p d s"
proof (induct p n s and p ns s and p c s and p d s
       rule: accept_listAccept_visitCallable_analyseCallable.induct)
  case (1 p loc ann s)
  then show ?case by (intro ident) simp
next
  case (2 p loc ann name e s)
  show ?case
    using "2.hyps"(1) "2.hyps"(2) [OF _ refl]
    by (intro member) simp_all
next
  case (3 p c t f s)
  show ?case
    using "3.hyps"(1) [OF refl] "3.hyps"(2) [OF refl refl] "3.hyps"(3) [OF refl refl refl]
    by (intro ifs) simp_all
next
  case (4 p c b s)
  show ?case
    using "4.hyps"(1) [OF refl] "4.hyps"(2) [OF refl refl]
    by (intro whiles) simp_all
next
  case (5 p loc e s)
  then show ?case
    by (intro return) (cases "currentConstructor s = None", simp_all)
next
  case (6 p ty children s)
  then show ?case by (rule expr)
next
  case (7 p children s)
  then show ?case by (rule stmt)
next
  case (8 p s)
  show ?case by (rule nil)
next
  case (9 p n ns s)
  then show ?case by (rule cons)
next
  case (10 p c s)
  show ?case
    using "10.hyps" [OF _ refl]
    by (intro callable) simp
next
  case (11 p f s)
  have eq: "(if isConstructor f then s\<lparr>currentConstructor := None\<rparr>\<lparr>currentConstructor := Some f\<rparr>
             else s\<lparr>currentConstructor := None\<rparr>)
            = s\<lparr>currentConstructor := (if isConstructor f then Some f else None)\<rparr>"
    by simp
  show ?case
    using "11.hyps"(1) [OF refl refl refl refl] "11.hyps"(2) [OF refl refl refl refl refl refl]
    unfolding eq
    by (intro func) simp_all
next
  case (12 p m s)
  show ?case
    using "12.hyps" [OF refl]
    by (intro modi)
qed

lemma sameContext_refl [simp]: "sameContext s s"
  by (simp add: sameContext_def)

lemma sameContext_trans: "sameContext s s1 \<Longrightarrow> sameContext s1 s2 \<Longrightarrow> sameContext s s2"
  by (simp add: sameContext_def)

lemma report_fields [simp]:
  "currentConstructor (report e s) = currentConstructor s"
  "inLoop (report e s) = inLoop s"
  "inBranch (report e s) = inBranch s"
  "readingOfImmutableAllowed (report e s) = readingOfImmutableAllowed s"
  "initializationOfImmutableAllowed (report e s) = initializationOfImmutableAllowed s"
  "initializedStateVariables (report e s) = initializedStateVariables s"
  "errors (report e s) = errors s @ [e]"
  by (simp_all add: report_def)

lemma sameContext_report [simp]: "sameContext s (report e s)"
  by (simp add: sameContext_def)

lemma sameContext_analyseVariableDeclaration [simp]:
  "sameContext s (analyseVariableDeclaration v loc ann s)"
  by (simp add: sameContext_def analyseVariableDeclaration_def Let_def split: option.splits)

lemma sameContext_checkVariables [simp]: "sameContext s (checkVariables loc xs s)"
proof (induction xs arbitrary: s)
  case Nil
  show ?case by simp
next
  case (Cons x xs)
  let ?s1 = "if immutable (var_decl x) then
          if var_id (var_decl x) \<notin> initializedStateVariables s then
            report (notInitializedError loc (var_decl x)) s
          else s
        else s"
  have a: "sameContext s ?s1" by simp
  have b: "sameContext ?s1 (checkVariables loc xs ?s1)" by (rule Cons.IH)
  have c: "checkVariables loc (x # xs) s = checkVariables loc xs ?s1"
    by (simp only: checkVariables.simps)
  show ?case unfolding c by (rule sameContext_trans [OF a b])
qed

lemma sameContext_checkAll [simp]: "sameContext s (checkAllVariablesInitialized p loc s)"
  by (simp add: checkAllVariablesInitialized_def)

section \<open>What a walk leaves unchanged\<close>

text \<open>
  Every function of the walk restores the flags and the current constructor it changes,
  so the context after a walk is the context before it.
\<close>

lemma context_preserved:
  "sameContext s (accept p n s)"
  "sameContext s (listAccept p ns s)"
  "sameContext s (visitCallable p c s)"
  "sameContext s (analyseCallable p d s)"
proof (induct p n s and p ns s and p c s and p d s rule: traversal_induct)
  case (Identifier p loc ann s)
  then show ?case
    using sameContext_analyseVariableDeclaration
    unfolding sameContext_def
    by (cases "asCallable (referencedDeclaration ann)";
        cases "asVariable (referencedDeclaration ann)")
       (simp_all del: visitCallable.simps)
next
  case (MemberAccess p loc ann name e s)
  then show ?case
    using sameContext_analyseVariableDeclaration
    unfolding sameContext_def
    by (simp add: Let_def del: visitCallable.simps split: option.splits Type.splits)
next
  case (IfStatement p c t f s)
  then show ?case
    unfolding sameContext_def
    by (cases f) (simp_all add: Let_def)
next
  case (WhileStatement p c b s)
  then show ?case
    unfolding sameContext_def
    by (simp add: Let_def)
next
  case (Return p loc e s)
  then show ?case
    using sameContext_checkAll
    unfolding sameContext_def
    by (cases e) simp_all
next
  case (Cons p n ns s)
  then show ?case
    unfolding sameContext_def by simp
next
  case (visitCallable p c s)
  then show ?case
    unfolding sameContext_def
    by (cases "map_of (callables p) c") (simp_all add: Let_def)
next
  case (Function p f s)
  then show ?case
    unfolding sameContext_def
    by (cases "isConstructor f"; cases "fun_body f") (simp_all add: Let_def)
next
  case (Modifier p m s)
  then show ?case
    unfolding sameContext_def
    by (simp add: Let_def)
qed simp_all


lemma initialized_checkVariables [simp]:
  "initializedStateVariables (checkVariables loc xs s) = initializedStateVariables s"
  by (induction xs arbitrary: s) simp_all

lemma initialized_checkAll [simp]:
  "initializedStateVariables (checkAllVariablesInitialized p loc s)
     = initializedStateVariables s"
  by (simp add: checkAllVariablesInitialized_def)

text \<open>The member access, case by case.\<close>

lemma accept_MemberAccess_cases:
  assumes "\<not> (name = ''selector'' \<and> isFunctionType (typeOf e) \<and>
              isFixedBytesType (exprType ann))"
  shows "asVariable (referencedDeclaration ann) = Some v \<Longrightarrow>
           accept p (MemberAccess loc ann name e) s
             = analyseVariableDeclaration v loc ann (accept p e s)"
    and "asVariable (referencedDeclaration ann) = None \<Longrightarrow>
         exprType ann = FunctionType k (Some d) \<Longrightarrow> k = Internal \<or> k = Declaration \<Longrightarrow>
           accept p (MemberAccess loc ann name e) s = visitCallable p d (accept p e s)"
    and "asVariable (referencedDeclaration ann) = None \<Longrightarrow>
         \<not> (\<exists>k d. exprType ann = FunctionType k (Some d) \<and> (k = Internal \<or> k = Declaration)) \<Longrightarrow>
           accept p (MemberAccess loc ann name e) s = accept p e s"
  using assms
  by (auto simp: Let_def simp del: visitCallable.simps split: Type.splits option.splits)


section \<open>The initialization rule checker\<close>

text \<open>
  C1. A use of an immutable state variable as the target of an ordinary assignment: of the
  five conditions (no constructor, constructor of another contract, loop, branch,
  initialization not allowed), taken in this order, the first that holds is reported, and
  only that one. Whatever was reported, the write is then recorded: the variable already in
  the initialized set gives the "already initialized" error, otherwise it is inserted.
\<close>

theorem plain_write_reports_first_condition_then_records:
  assumes "isStateVariable v" and "immutable v"
    and "lValueRequested ann" and "lValueOfOrdinaryAssignment ann"
  shows "analyseVariableDeclaration v loc ann s =
           s\<lparr>errors := errors s
                  @ (case plainWriteViolation v s of
                       None \<Rightarrow> []
                     | Some msg \<Rightarrow> [typeError loc msg])
                  @ (if var_id v \<in> initializedStateVariables s
                     then [typeError loc msgAlreadyInitialized] else []),
              initializedStateVariables := insert (var_id v) (initializedStateVariables s)\<rparr>"
  using assms
  by (auto simp: analyseVariableDeclaration_def plainWriteViolation_def
        plainWriteConditions_def report_def Let_def insert_absorb split: option.splits)

theorem plain_write_witness:
  "isStateVariable exVar \<and> immutable exVar \<and> lValueRequested exWrite \<and>
   lValueOfOrdinaryAssignment exWrite \<and>
   errors (analyseVariableDeclaration exVar exLoc exWrite
     (newValidator\<lparr>currentConstructor := Some exCtor, inLoop := True, inBranch := True,
        initializedStateVariables := {1}\<rparr>))
   = [typeError exLoc msgInLoop, typeError exLoc msgAlreadyInitialized] \<and>
   msgInLoop \<noteq> msgAlreadyInitialized"
  using plain_write_reports_first_condition_then_records
    [of exVar exWrite exLoc "newValidator\<lparr>currentConstructor := Some exCtor, inLoop := True,
        inBranch := True, initializedStateVariables := {1}\<rparr>"]
  by (simp add: exVar_def exWrite_def exCtor_def newValidator_def plainWriteViolation_def
        plainWriteConditions_def msgInLoop_def msgAlreadyInitialized_def)

text \<open>
  C2. A use of an immutable state variable that is not the target of an ordinary
  assignment (a read, or an lvalue of another kind): the "cannot be read" error is reported
  if and only if reading is not allowed, nothing else is reported, and the initialized set
  stays as it was.
\<close>

theorem other_use_reports_read_iff_forbidden:
  assumes "isStateVariable v" and "immutable v"
    and "\<not> (lValueRequested ann \<and> lValueOfOrdinaryAssignment ann)"
  shows "analyseVariableDeclaration v loc ann s =
           (if readingOfImmutableAllowed s then s
            else s\<lparr>errors := errors s @ [typeError loc msgRead]\<rparr>)
         \<and> (errors (analyseVariableDeclaration v loc ann s) \<noteq> errors s
              \<longleftrightarrow> \<not> readingOfImmutableAllowed s)
         \<and> initializedStateVariables (analyseVariableDeclaration v loc ann s)
             = initializedStateVariables s"
  using assms
  by (auto simp: analyseVariableDeclaration_def report_def)

theorem other_use_witness:
  "isStateVariable exVar \<and> immutable exVar \<and>
   \<not> (lValueRequested exCompound \<and> lValueOfOrdinaryAssignment exCompound) \<and>
   analyseVariableDeclaration exVar exLoc exCompound newValidator
     = newValidator\<lparr>errors := [typeError exLoc msgRead]\<rparr> \<and>
   analyseVariableDeclaration exVar exLoc exCompound
       (newValidator\<lparr>readingOfImmutableAllowed := True\<rparr>)
     = newValidator\<lparr>readingOfImmutableAllowed := True\<rparr>"
  using other_use_reports_read_iff_forbidden [of exVar exCompound exLoc newValidator]
    other_use_reports_read_iff_forbidden
      [of exVar exCompound exLoc "newValidator\<lparr>readingOfImmutableAllowed := True\<rparr>"]
  by (simp add: exVar_def exCompound_def newValidator_def)

section \<open>The completeness checker\<close>

lemma checkVariables_reports:
  "checkVariables loc xs s =
     s\<lparr>errors := errors s @
          map (notInitializedError loc)
            (filter (\<lambda>v. immutable v \<and> var_id v \<notin> initializedStateVariables s)
               (map var_decl xs))\<rparr>"
proof (induction xs arbitrary: s)
  case Nil
  show ?case by simp
next
  case (Cons x xs)
  show ?case
    by (simp add: Cons.IH report_def)
qed

text \<open>
  C3. The completeness check reports, at the location it is given, one error for each
  immutable variable in the contract's list of state variables (inherited ones included)
  whose address is not in the initialized set; the error carries the declaration's location
  as secondary location. Initialized variables and variables that are not immutable give
  no error, and nothing else in the state changes.
\<close>

theorem checkAllVariablesInitialized_reports_each_uninitialized:
  "checkAllVariablesInitialized p loc s =
     s\<lparr>errors := errors s @
          map (\<lambda>v. \<lparr>err_location = loc,
                     err_secondary = [(''Not initialized: '', var_location v)],
                     err_message = msgNotInitialized\<rparr>)
            (filter (\<lambda>v. immutable v \<and> var_id v \<notin> initializedStateVariables s)
               (map var_decl (stateVariablesIncludingInherited p)))\<rparr>"
proof -
  have "notInitializedError loc =
          (\<lambda>v. \<lparr>err_location = loc,
                  err_secondary = [(''Not initialized: '', var_location v)],
                  err_message = msgNotInitialized\<rparr>)"
    by (rule ext) (simp add: notInitializedError_def)
  then show ?thesis
    by (simp add: checkAllVariablesInitialized_def checkVariables_reports)
qed

theorem checkAllVariablesInitialized_witness:
  "errors (checkAllVariablesInitialized exProgram exLoc newValidator) =
     [\<lparr>err_location = exLoc,
       err_secondary = [(''Not initialized: '', \<lparr>loc_start = 10, loc_end = 30\<rparr>)],
       err_message = msgNotInitialized\<rparr>] \<and>
   errors (checkAllVariablesInitialized exProgram exLoc
             (newValidator\<lparr>initializedStateVariables := {1}\<rparr>)) = []"
  using checkAllVariablesInitialized_reports_each_uninitialized [of exProgram exLoc newValidator]
    checkAllVariablesInitialized_reports_each_uninitialized
      [of exProgram exLoc "newValidator\<lparr>initializedStateVariables := {1}\<rparr>"]
  by (simp add: exProgram_def exVar_def exPlain_def newValidator_def)

section \<open>The override resolver\<close>

lemma find_first:
  assumes "i < length xs" and "P (xs ! i)" and "\<forall>j<i. \<not> P (xs ! j)"
  shows "find P xs = Some (xs ! i)"
  using assms by (auto simp: find_Some_iff)

lemma find_none: "\<forall>x\<in>set xs. \<not> P x \<Longrightarrow> find P xs = None"
  by (simp add: find_None_iff)

text \<open>What the two comparisons of \<open>findFinalOverride\<close> accept.\<close>

lemma sameSignature_iff:
  "sameSignature p f d \<longleftrightarrow>
     (\<exists>g. map_of (callables p) d = Some (Function g) \<and>
          fun_name g = fun_name f \<and>
          parameterTypes g = parameterTypes f \<and>
          returnParameterTypes g = returnParameterTypes f)"
  by (auto simp: sameSignature_def split: option.splits CallableDeclaration.splits)

lemma sameModifierName_iff:
  "sameModifierName p m d \<longleftrightarrow>
     (\<exists>g. map_of (callables p) d = Some (Modifier g) \<and> mod_name g = mod_name m)"
  by (auto simp: sameModifierName_def split: option.splits CallableDeclaration.splits)

text \<open>
  C4. \<open>findFinalOverride\<close> returns a callable without virtual semantics unchanged. For a
  virtual function it goes through the functions of the linearized base contracts in list
  order, the most derived contract first, and returns the first function whose name,
  parameter types and return types are all identical to those of the given one: the
  entry at position \<open>i\<close> is returned when it is such a function and no entry before it is,
  so an earlier entry that differs in the name, in the parameter types or in the return
  types is passed over. For a virtual modifier it returns, in the same way, the first
  modifier of the same name. When no entry of the list is such a function (modifier), it
  returns the given callable.
\<close>

theorem findFinalOverride_first_match:
  "(map_of (callables p) c = Some (Function f) \<and> \<not> fun_virtualSemantics f
      \<longrightarrow> findFinalOverride p c = c) \<and>
   (map_of (callables p) c = Some (Modifier m) \<and> \<not> mod_virtualSemantics m
      \<longrightarrow> findFinalOverride p c = c) \<and>
   (map_of (callables p) c = Some (Function f) \<and> fun_virtualSemantics f \<longrightarrow>
      (i < length (concat (map definedFunctions (linearizedBaseContracts p))) \<and>
          (\<exists>g. map_of (callables p)
                  (concat (map definedFunctions (linearizedBaseContracts p)) ! i)
                  = Some (Function g) \<and>
               fun_name g = fun_name f \<and>
               parameterTypes g = parameterTypes f \<and>
               returnParameterTypes g = returnParameterTypes f) \<and>
          (\<forall>j < i. \<forall>g.
              map_of (callables p)
                (concat (map definedFunctions (linearizedBaseContracts p)) ! j)
                = Some (Function g) \<longrightarrow>
              fun_name g \<noteq> fun_name f \<or>
              parameterTypes g \<noteq> parameterTypes f \<or>
              returnParameterTypes g \<noteq> returnParameterTypes f)
          \<longrightarrow> findFinalOverride p c
                = concat (map definedFunctions (linearizedBaseContracts p)) ! i) \<and>
      ((\<forall>d \<in> set (concat (map definedFunctions (linearizedBaseContracts p))). \<forall>g.
           map_of (callables p) d = Some (Function g) \<longrightarrow>
           fun_name g \<noteq> fun_name f \<or>
           parameterTypes g \<noteq> parameterTypes f \<or>
           returnParameterTypes g \<noteq> returnParameterTypes f)
         \<longrightarrow> findFinalOverride p c = c)) \<and>
   (map_of (callables p) c = Some (Modifier m) \<and> mod_virtualSemantics m \<longrightarrow>
      (i < length (concat (map functionModifiers (linearizedBaseContracts p))) \<and>
          (\<exists>g. map_of (callables p)
                  (concat (map functionModifiers (linearizedBaseContracts p)) ! i)
                  = Some (Modifier g) \<and>
               mod_name g = mod_name m) \<and>
          (\<forall>j < i. \<forall>g.
              map_of (callables p)
                (concat (map functionModifiers (linearizedBaseContracts p)) ! j)
                = Some (Modifier g) \<longrightarrow>
              mod_name g \<noteq> mod_name m)
          \<longrightarrow> findFinalOverride p c
                = concat (map functionModifiers (linearizedBaseContracts p)) ! i) \<and>
      ((\<forall>d \<in> set (concat (map functionModifiers (linearizedBaseContracts p))). \<forall>g.
           map_of (callables p) d = Some (Modifier g) \<longrightarrow> mod_name g \<noteq> mod_name m)
         \<longrightarrow> findFinalOverride p c = c))"
proof (intro conjI impI; (elim conjE)?)
  assume "map_of (callables p) c = Some (Function f)" "\<not> fun_virtualSemantics f"
  then show "findFinalOverride p c = c"
    by (simp add: findFinalOverride_def)
next
  assume "map_of (callables p) c = Some (Modifier m)" "\<not> mod_virtualSemantics m"
  then show "findFinalOverride p c = c"
    by (simp add: findFinalOverride_def)
next
  let ?cands = "concat (map definedFunctions (linearizedBaseContracts p))"
  assume c: "map_of (callables p) c = Some (Function f)" "fun_virtualSemantics f"
    and i: "i < length ?cands"
    and g: "\<exists>g. map_of (callables p) (?cands ! i) = Some (Function g) \<and>
               fun_name g = fun_name f \<and> parameterTypes g = parameterTypes f \<and>
               returnParameterTypes g = returnParameterTypes f"
    and m: "\<forall>j < i. \<forall>g. map_of (callables p) (?cands ! j) = Some (Function g) \<longrightarrow>
              fun_name g \<noteq> fun_name f \<or> parameterTypes g \<noteq> parameterTypes f \<or>
              returnParameterTypes g \<noteq> returnParameterTypes f"
  from g have "sameSignature p f (?cands ! i)"
    by (simp add: sameSignature_iff)
  moreover from m have "\<forall>j < i. \<not> sameSignature p f (?cands ! j)"
    by (auto simp: sameSignature_iff)
  ultimately have "find (sameSignature p f) ?cands = Some (?cands ! i)"
    using i by (intro find_first) simp_all
  with c show "findFinalOverride p c = ?cands ! i"
    by (simp add: findFinalOverride_def)
next
  let ?cands = "concat (map definedFunctions (linearizedBaseContracts p))"
  assume c: "map_of (callables p) c = Some (Function f)" "fun_virtualSemantics f"
    and n: "\<forall>d \<in> set ?cands. \<forall>g. map_of (callables p) d = Some (Function g) \<longrightarrow>
              fun_name g \<noteq> fun_name f \<or> parameterTypes g \<noteq> parameterTypes f \<or>
              returnParameterTypes g \<noteq> returnParameterTypes f"
  from n have "\<forall>d \<in> set ?cands. \<not> sameSignature p f d"
    by (auto simp: sameSignature_iff)
  then have "find (sameSignature p f) ?cands = None"
    by (rule find_none)
  with c show "findFinalOverride p c = c"
    by (simp add: findFinalOverride_def)
next
  let ?cands = "concat (map functionModifiers (linearizedBaseContracts p))"
  assume c: "map_of (callables p) c = Some (Modifier m)" "mod_virtualSemantics m"
    and i: "i < length ?cands"
    and g: "\<exists>g. map_of (callables p) (?cands ! i) = Some (Modifier g) \<and>
               mod_name g = mod_name m"
    and m: "\<forall>j < i. \<forall>g. map_of (callables p) (?cands ! j) = Some (Modifier g) \<longrightarrow>
              mod_name g \<noteq> mod_name m"
  from g have "sameModifierName p m (?cands ! i)"
    by (simp add: sameModifierName_iff)
  moreover from m have "\<forall>j < i. \<not> sameModifierName p m (?cands ! j)"
    by (auto simp: sameModifierName_iff)
  ultimately have "find (sameModifierName p m) ?cands = Some (?cands ! i)"
    using i by (intro find_first) simp_all
  with c show "findFinalOverride p c = ?cands ! i"
    by (simp add: findFinalOverride_def)
next
  let ?cands = "concat (map functionModifiers (linearizedBaseContracts p))"
  assume c: "map_of (callables p) c = Some (Modifier m)" "mod_virtualSemantics m"
    and n: "\<forall>d \<in> set ?cands. \<forall>g. map_of (callables p) d = Some (Modifier g) \<longrightarrow>
              mod_name g \<noteq> mod_name m"
  from n have "\<forall>d \<in> set ?cands. \<not> sameModifierName p m d"
    by (auto simp: sameModifierName_iff)
  then have "find (sameModifierName p m) ?cands = None"
    by (rule find_none)
  with c show "findFinalOverride p c = c"
    by (simp add: findFinalOverride_def)
qed

text \<open>
  In the hierarchy with lookalikes the override of \<open>f(uint256)\<close> is found at position 3 of
  the functions, after the function of another name, the one with another parameter type
  and the one with another return type; the override of \<open>m\<close> at position 1 of the
  modifiers, after \<open>n\<close>. With \<open>Derived\<close> alone nothing matches and the callable itself is
  the answer.
\<close>

theorem findFinalOverride_witness:
  "concat (map definedFunctions (linearizedBaseContracts exLookalikes)) = [21, 22, 23, 24, 20] \<and>
   findFinalOverride exLookalikes 20 = 24 \<and>
   findFinalOverride exLookalikesOnly 20 = 20 \<and>
   concat (map functionModifiers (linearizedBaseContracts exLookalikes)) = [31, 32, 30] \<and>
   findFinalOverride exLookalikes 30 = 32 \<and>
   findFinalOverride exLookalikesOnly 30 = 30 \<and>
   findFinalOverride exProgram 1 = 2 \<and> findFinalOverride exProgram 3 = 3 \<and>
   findFinalOverride exModifiers 5 = 4 \<and> findFinalOverride exModifiers 6 = 6 \<and>
   findFinalOverride (exProgram\<lparr>linearizedBaseContracts := []\<rparr>) 1 = 1"
proof -
  have fs: "concat (map definedFunctions (linearizedBaseContracts exLookalikes))
              = [21, 22, 23, 24, 20]"
    and ms: "concat (map functionModifiers (linearizedBaseContracts exLookalikes))
              = [31, 32, 30]"
    by (simp_all add: exLookalikes_def exLookalikesDerived_def)
  have fs1: "concat (map definedFunctions (linearizedBaseContracts exLookalikesOnly))
              = [21, 22, 23]"
    and ms1: "concat (map functionModifiers (linearizedBaseContracts exLookalikesOnly))
              = [31]"
    by (simp_all add: exLookalikesOnly_def exLookalikesDerived_def)
  have cs: "callables exLookalikesOnly = callables exLookalikes"
    by (simp add: exLookalikesOnly_def)
  have c20: "map_of (callables exLookalikes) 20
               = Some (Function (exSignature ''f'' [''uint256''] [] 1))"
    and c21: "map_of (callables exLookalikes) 21
               = Some (Function (exSignature ''g'' [''uint256''] [] 3))"
    and c22: "map_of (callables exLookalikes) 22
               = Some (Function (exSignature ''f'' [''bool''] [] 3))"
    and c23: "map_of (callables exLookalikes) 23
               = Some (Function (exSignature ''f'' [''uint256''] [''uint256''] 3))"
    and c24: "map_of (callables exLookalikes) 24
               = Some (Function (exSignature ''f'' [''uint256''] [] 2))"
    and c30: "map_of (callables exLookalikes) 30 = Some (Modifier (exNamed ''m''))"
    and c31: "map_of (callables exLookalikes) 31 = Some (Modifier (exNamed ''n''))"
    and c32: "map_of (callables exLookalikes) 32 = Some (Modifier (exNamed ''m''))"
    by (simp_all add: exLookalikes_def)
  have lt3: "\<And>j::nat. j < 3 \<longleftrightarrow> j = 0 \<or> j = 1 \<or> j = 2"
    by auto
  have f: "findFinalOverride exLookalikes 20 = 24"
    using findFinalOverride_first_match
      [of exLookalikes 20 "exSignature ''f'' [''uint256''] [] 1" undefined 3]
    by (simp add: fs c20 c21 c22 c23 c24 lt3 exSignature_def)
  have fn: "findFinalOverride exLookalikesOnly 20 = 20"
    using findFinalOverride_first_match
      [of exLookalikesOnly 20 "exSignature ''f'' [''uint256''] [] 1" undefined 0]
    by (simp add: fs1 cs c20 c21 c22 c23 exSignature_def)
  have m: "findFinalOverride exLookalikes 30 = 32"
    using findFinalOverride_first_match [of exLookalikes 30 undefined "exNamed ''m''" 1]
    by (simp add: ms c30 c31 c32 exNamed_def)
  have mn: "findFinalOverride exLookalikesOnly 30 = 30"
    using findFinalOverride_first_match [of exLookalikesOnly 30 undefined "exNamed ''m''" 0]
    by (simp add: ms1 cs c30 c31 exNamed_def)
  have a: "findFinalOverride exProgram 1 = 2"
    using findFinalOverride_first_match [of exProgram 1 exBaseF undefined 0]
    by (simp add: exProgram_def exBaseF_def exDerivedF_def exDerived_def exBase_def)
  have b: "findFinalOverride exProgram 3 = 3"
    using findFinalOverride_first_match [of exProgram 3 exCtor undefined 0]
    by (simp add: exProgram_def exCtor_def)
  have c: "findFinalOverride exModifiers 5 = 4"
    using findFinalOverride_first_match [of exModifiers 5 undefined exBaseM 0]
    by (simp add: exModifiers_def exBaseM_def exDerivedM_def)
  have d: "findFinalOverride exModifiers 6 = 6"
    using findFinalOverride_first_match [of exModifiers 6 undefined exOtherM 0]
    by (simp add: exModifiers_def exOtherM_def)
  have e: "findFinalOverride (exProgram\<lparr>linearizedBaseContracts := []\<rparr>) 1 = 1"
    using findFinalOverride_first_match
      [of "exProgram\<lparr>linearizedBaseContracts := []\<rparr>" 1 exBaseF undefined 0]
    by (simp add: exProgram_def exBaseF_def)
  from fs ms f fn m mn a b c d e show ?thesis by simp
qed

section \<open>The traversal engine\<close>

text \<open>
  C5, as the code has it. A reference to a callable by identifier makes the walk visit the
  final override of that callable, and if that one is new to the visited set, its body is
  analysed. A reference by member access (other than the selector case, and not to a
  variable) whose type is an internal function or a function declaration makes the walk
  visit the declaration the type names, without resolving overrides, after the operand.
\<close>

theorem identifier_resolves_override_member_access_does_not:
  "(asCallable (referencedDeclaration ann) = Some c \<longrightarrow>
      accept p (Identifier loc ann) s = visitCallable p (findFinalOverride p c) s) \<and>
   (\<not> (name = ''selector'' \<and> isFunctionType (typeOf e) \<and> isFixedBytesType (exprType ann)) \<and>
    asVariable (referencedDeclaration ann) = None \<and>
    exprType ann = FunctionType k (Some d) \<and> (k = Internal \<or> k = Declaration) \<longrightarrow>
      accept p (MemberAccess loc ann name e) s = visitCallable p d (accept p e s)) \<and>
   (c \<notin> visitedCallables s \<and> map_of (callables p) c = Some decl \<longrightarrow>
      visitCallable p c s
        = analyseCallable p decl (s\<lparr>visitedCallables := insert c (visitedCallables s)\<rparr>))"
proof (intro conjI impI)
  assume c: "asCallable (referencedDeclaration ann) = Some c"
  then have "asVariable (referencedDeclaration ann) = None"
    by (cases "referencedDeclaration ann" rule: asCallable.cases) simp_all
  with c show "accept p (Identifier loc ann) s = visitCallable p (findFinalOverride p c) s"
    by (simp del: visitCallable.simps)
next
  assume a: "\<not> (name = ''selector'' \<and> isFunctionType (typeOf e) \<and>
             isFixedBytesType (exprType ann)) \<and>
          asVariable (referencedDeclaration ann) = None \<and>
          exprType ann = FunctionType k (Some d) \<and> (k = Internal \<or> k = Declaration)"
  show "accept p (MemberAccess loc ann name e) s = visitCallable p d (accept p e s)"
    by (rule accept_MemberAccess_cases(2)) (use a in blast)+
next
  assume "c \<notin> visitedCallables s \<and> map_of (callables p) c = Some decl"
  then show "visitCallable p c s
        = analyseCallable p decl (s\<lparr>visitedCallables := insert c (visitedCallables s)\<rparr>)"
    by (simp add: Let_def)
qed

theorem identifier_and_member_access_witness:
  "accept exProgram exCallF newValidator = newValidator\<lparr>visitedCallables := {2}\<rparr> \<and>
   accept exProgram exAccessF newValidator
     = newValidator\<lparr>visitedCallables := {1}, errors := [typeError exLoc msgRead]\<rparr>"
proof -
  have a: "accept exProgram exCallF newValidator
             = visitCallable exProgram (findFinalOverride exProgram 1) newValidator"
    using identifier_resolves_override_member_access_does_not
      [where ann = "\<lparr>exprType = FunctionType Internal (Some 1), lValueRequested = False,
            lValueOfOrdinaryAssignment = False,
            referencedDeclaration = Some (CallableRef 1)\<rparr>"
         and c = 1 and p = exProgram and loc = exLoc and s = newValidator]
    by (simp add: exCallF_def del: accept.simps visitCallable.simps)
  have b: "findFinalOverride exProgram 1 = 2"
    by (simp add: findFinalOverride_def sameSignature_def exProgram_def exBaseF_def
          exDerivedF_def exDerived_def exBase_def)
  have "visitCallable exProgram 2 newValidator
          = analyseCallable exProgram (Function exDerivedF)
              (newValidator\<lparr>visitedCallables := insert 2 (visitedCallables newValidator)\<rparr>)"
    using identifier_resolves_override_member_access_does_not
      [where c = 2 and p = exProgram and s = newValidator and decl = "Function exDerivedF"]
    by (simp add: exProgram_def newValidator_def del: visitCallable.simps analyseCallable.simps)
  then have c: "visitCallable exProgram 2 newValidator
                  = newValidator\<lparr>visitedCallables := {2}\<rparr>"
    by (simp add: exDerivedF_def newValidator_def del: visitCallable.simps)
  have d: "accept exProgram exAccessF newValidator
             = visitCallable exProgram 1 (accept exProgram exBaseName newValidator)"
    using identifier_resolves_override_member_access_does_not
      [where ann = "\<lparr>exprType = FunctionType Internal (Some 1), lValueRequested = False,
            lValueOfOrdinaryAssignment = False,
            referencedDeclaration = Some (CallableRef 1)\<rparr>"
         and name = "''f''" and e = exBaseName and k = Internal and d = 1
         and p = exProgram and loc = exLoc and s = newValidator]
    by (simp add: exAccessF_def del: accept.simps visitCallable.simps)
  have e: "accept exProgram exBaseName newValidator = newValidator"
    by (simp add: exBaseName_def)
  have f: "visitCallable exProgram 1 newValidator
             = newValidator\<lparr>visitedCallables := {1}, errors := [typeError exLoc msgRead]\<rparr>"
    by (simp add: exProgram_def exBaseF_def newValidator_def exRead_def exVar_def
          analyseVariableDeclaration_def report_def)
  show ?thesis by (simp only: a b c d e f simp_thms)
qed

text \<open>
  C5, as the claim states it, fails for member access: \<open>Base.f\<close> named by member access in a
  hierarchy where \<open>Derived\<close> overrides \<open>f\<close> makes the walk analyse the body of \<open>Base.f\<close>
  (address 1), which reads the immutable, and not the body of the final override
  (address 2).
\<close>

theorem member_access_override_counterexample:
  "findFinalOverride exProgram 1 = 2 \<and>
   accept exProgram exAccessF newValidator
     = newValidator\<lparr>visitedCallables := {1}, errors := [typeError exLoc msgRead]\<rparr> \<and>
   accept exProgram exAccessF newValidator
     \<noteq> visitCallable exProgram (findFinalOverride exProgram 1)
         (accept exProgram exBaseName newValidator)"
proof -
  have b: "findFinalOverride exProgram 1 = 2"
    by (simp add: findFinalOverride_def sameSignature_def exProgram_def exBaseF_def
          exDerivedF_def exDerived_def exBase_def)
  have c: "visitCallable exProgram 2 newValidator = newValidator\<lparr>visitedCallables := {2}\<rparr>"
    by (simp add: exProgram_def exDerivedF_def newValidator_def)
  have e: "accept exProgram exBaseName newValidator = newValidator"
    by (simp add: exBaseName_def)
  have f: "accept exProgram exAccessF newValidator
             = newValidator\<lparr>visitedCallables := {1}, errors := [typeError exLoc msgRead]\<rparr>"
    by (simp add: exAccessF_def exBaseName_def exProgram_def exBaseF_def newValidator_def
          exRead_def exVar_def analyseVariableDeclaration_def report_def)
  have g: "newValidator\<lparr>visitedCallables := {1}, errors := [typeError exLoc msgRead]\<rparr>
             \<noteq> newValidator\<lparr>visitedCallables := {2}\<rparr>"
    by (simp add: newValidator_def)
  from b c e f g show ?thesis by simp
qed

text \<open>
  C7. A return statement met while a current constructor is set: the returned expression,
  if there is one, is visited first, then the completeness check runs at the location of
  the return statement. With no current constructor there is no completeness check: the
  walk goes on into the expression, as for any other node.
\<close>

theorem return_checks_completeness_only_in_constructor:
  "(currentConstructor s \<noteq> None \<longrightarrow>
      accept p (Return loc None) s = checkAllVariablesInitialized p loc s \<and>
      accept p (Return loc (Some x)) s = checkAllVariablesInitialized p loc (accept p x s)) \<and>
   (currentConstructor s = None \<longrightarrow>
      accept p (Return loc None) s = s \<and>
      accept p (Return loc (Some x)) s = accept p x s)"
  by simp

theorem return_witness:
  "errors (accept exProgram (Return exLoc (Some (Identifier exLoc exRead))) exInConstructor)
     = [typeError exLoc msgRead,
        \<lparr>err_location = exLoc,
         err_secondary = [(''Not initialized: '', \<lparr>loc_start = 10, loc_end = 30\<rparr>)],
         err_message = msgNotInitialized\<rparr>] \<and>
   errors (accept exProgram (Return exLoc (Some (Identifier exLoc exRead))) newValidator)
     = [typeError exLoc msgRead]"
proof -
  have a: "currentConstructor exInConstructor \<noteq> None" "currentConstructor newValidator = None"
    by (simp_all add: exInConstructor_def newValidator_def)
  have b: "accept exProgram (Return exLoc (Some (Identifier exLoc exRead))) exInConstructor
             = checkAllVariablesInitialized exProgram exLoc
                 (accept exProgram (Identifier exLoc exRead) exInConstructor)"
    using return_checks_completeness_only_in_constructor
      [of exInConstructor exProgram exLoc "Identifier exLoc exRead"] a(1)
    by (simp del: accept.simps)
  have c: "accept exProgram (Return exLoc (Some (Identifier exLoc exRead))) newValidator
             = accept exProgram (Identifier exLoc exRead) newValidator"
    using return_checks_completeness_only_in_constructor
      [of newValidator exProgram exLoc "Identifier exLoc exRead"] a(2)
    by (simp del: accept.simps)
  show ?thesis
    unfolding b c
    by (simp add: exInConstructor_def newValidator_def exRead_def exVar_def exPlain_def
          exProgram_def analyseVariableDeclaration_def report_def
          checkAllVariablesInitialized_def notInitializedError_def)
qed

text \<open>
  C8. A member access named \<open>selector\<close> whose operand has a function type and whose own
  type is a fixed-size byte type leaves the validator as it was: the operand is not
  visited, no callable is entered, nothing is reported.
\<close>

theorem selector_access_is_not_traversed:
  "isFunctionType (typeOf e) \<Longrightarrow> isFixedBytesType (exprType ann) \<Longrightarrow>
   accept p (MemberAccess loc ann ''selector'' e) s = s"
  by simp

theorem selector_access_witness:
  "isFunctionType (typeOf exCallF) \<and> isFixedBytesType (exprType exSelectorAnnotation) \<and>
   accept exBaseOnly (MemberAccess exLoc exSelectorAnnotation ''selector'' exCallF) newValidator
     = newValidator \<and>
   errors (accept exBaseOnly exCallF newValidator) = [typeError exLoc msgRead]"
proof -
  have a: "isFunctionType (typeOf exCallF)" "isFixedBytesType (exprType exSelectorAnnotation)"
    by (simp_all add: exCallF_def exSelectorAnnotation_def)
  have b: "accept exBaseOnly (MemberAccess exLoc exSelectorAnnotation ''selector'' exCallF)
             newValidator = newValidator"
    using selector_access_is_not_traversed [OF a] .
  have c: "errors (accept exBaseOnly exCallF newValidator) = [typeError exLoc msgRead]"
    by (simp add: exCallF_def exBaseOnly_def exProgram_def exBase_def exBaseF_def exCtor_def
          findFinalOverride_def sameSignature_def newValidator_def exRead_def exVar_def
          analyseVariableDeclaration_def report_def)
  from a b c show ?thesis by simp
qed

text \<open>
  C9. An if statement: the condition is visited in the state the statement is entered
  with, the branch flag not raised for it; the true branch is then visited with the flag
  raised; the false branch, if there is one, is visited after it, and the flag is still
  raised there; at the end the flag has the value it had before the statement.
\<close>

theorem if_statement_raises_and_restores_branch_flag:
  "accept p (IfStatement c t None) s
     = (accept p t ((accept p c s)\<lparr>inBranch := True\<rparr>))\<lparr>inBranch := inBranch s\<rparr> \<and>
   accept p (IfStatement c t (Some e)) s
     = (accept p e (accept p t ((accept p c s)\<lparr>inBranch := True\<rparr>)))
         \<lparr>inBranch := inBranch s\<rparr> \<and>
   inBranch (accept p t ((accept p c s)\<lparr>inBranch := True\<rparr>)) \<and>
   inBranch (accept p (IfStatement c t f) s) = inBranch s"
proof -
  have "sameContext ((accept p c s)\<lparr>inBranch := True\<rparr>)
          (accept p t ((accept p c s)\<lparr>inBranch := True\<rparr>))"
    by (rule context_preserved(1))
  then have "inBranch (accept p t ((accept p c s)\<lparr>inBranch := True\<rparr>))"
    by (simp add: sameContext_def)
  then show ?thesis
    by (cases f) (simp_all add: Let_def)
qed

theorem if_statement_witness:
  "errors (accept exProgram exIf exInConstructor)
     = [typeError \<lparr>loc_start = 3, loc_end = 4\<rparr> msgInBranch,
        typeError \<lparr>loc_start = 3, loc_end = 4\<rparr> msgAlreadyInitialized,
        typeError \<lparr>loc_start = 5, loc_end = 6\<rparr> msgInBranch,
        typeError \<lparr>loc_start = 5, loc_end = 6\<rparr> msgAlreadyInitialized] \<and>
   inBranch (accept exProgram exIf exInConstructor) = False"
proof -
  have "accept exProgram exIf exInConstructor
          = (accept exProgram (Identifier \<lparr>loc_start = 5, loc_end = 6\<rparr> exWrite)
              (accept exProgram (Identifier \<lparr>loc_start = 3, loc_end = 4\<rparr> exWrite)
                ((accept exProgram (Identifier \<lparr>loc_start = 1, loc_end = 2\<rparr> exWrite)
                   exInConstructor)\<lparr>inBranch := True\<rparr>)))
            \<lparr>inBranch := inBranch exInConstructor\<rparr>"
    unfolding exIf_def
    using if_statement_raises_and_restores_branch_flag
      [of exProgram "Identifier \<lparr>loc_start = 1, loc_end = 2\<rparr> exWrite"
          "Identifier \<lparr>loc_start = 3, loc_end = 4\<rparr> exWrite" exInConstructor
          "Identifier \<lparr>loc_start = 5, loc_end = 6\<rparr> exWrite"]
    by (simp del: accept.simps)
  then show ?thesis
    by (simp add: exInConstructor_def newValidator_def exWrite_def exVar_def exCtor_def
          analyseVariableDeclaration_def report_def)
qed

section \<open>The order of the phases\<close>

lemma visitBaseArguments_fold:
  "visitBaseArguments p cs s = fold (\<lambda>c. visitSpecifiers p (baseContracts c)) cs s"
  by (induction cs arbitrary: s) simp_all

lemma visitFunctionsAndModifiers_fold:
  "visitFunctionsAndModifiers p cs s = fold (visitContract p) cs s"
  by (induction cs arbitrary: s) simp_all

text \<open>
  C6, as the code has it. The third and the fourth loop of \<open>analyze\<close> run over the same
  reversed range as the second: \<open>foldr\<close> over the linearized base list applies the step of
  the last contract of the list, the most base one, first, and the step of the head of the
  list, the most derived contract, last.
\<close>

theorem analyze_visits_most_base_first:
  "analyze p s =
     (case inlineInitializers p (stateVariablesIncludingInherited p)
             (s\<lparr>readingOfImmutableAllowed := False,
                initializationOfImmutableAllowed := True\<rparr>) of
        Inl e \<Rightarrow> Inl e
      | Inr s1 \<Rightarrow>
          Inr (checkAllVariablesInitialized p (contract_location p)
                 (foldr (visitContract p) (linearizedBaseContracts p)
                    ((foldr (\<lambda>c. visitSpecifiers p (baseContracts c))
                        (linearizedBaseContracts p)
                        ((visitConstructors p (rev (linearizedBaseContracts p)) s1)
                           \<lparr>initializationOfImmutableAllowed := False\<rparr>))
                       \<lparr>readingOfImmutableAllowed := True\<rparr>))))"
  by (simp add: analyze_def Let_def visitBaseArguments_fold visitFunctionsAndModifiers_fold
        foldr_conv_fold split: sum.splits)

theorem analyze_order_witness:
  "reportedAt (analyze exOrder newValidator)
     = [locBaseArgument, locDerivedArgument,
        locBaseFunction, locDerivedFunction, locDerivedFunction]"
  unfolding analyze_visits_most_base_first [of exOrder newValidator]
  by (simp add: reportedAt_def exOrder_def exAssigning_def exVar_def exRead_def exWrite_def
        newValidator_def visitContract_def analyseVariableDeclaration_def report_def
        checkAllVariablesInitialized_def typeError_def)

text \<open>
  C6, as the claim states it, fails: on the three contracts above the errors of the
  arguments and of the functions of \<open>Base\<close> come before those of \<open>Derived\<close>, while the order
  the claim gives would report those of \<open>Derived\<close> first.
\<close>

theorem analyze_order_counterexample:
  "reportedAt (analyze exOrder newValidator)
     = [locBaseArgument, locDerivedArgument,
        locBaseFunction, locDerivedFunction, locDerivedFunction] \<and>
   reportedAt (analyzeAsSpecified exOrder newValidator)
     = [locDerivedArgument, locBaseArgument,
        locDerivedFunction, locBaseFunction, locBaseFunction] \<and>
   analyze exOrder newValidator \<noteq> analyzeAsSpecified exOrder newValidator"
proof -
  have a: "reportedAt (analyze exOrder newValidator)
     = [locBaseArgument, locDerivedArgument,
        locBaseFunction, locDerivedFunction, locDerivedFunction]"
    by (simp add: analyze_def reportedAt_def exOrder_def exAssigning_def exVar_def exRead_def
          exWrite_def newValidator_def visitContract_def analyseVariableDeclaration_def
          report_def checkAllVariablesInitialized_def typeError_def)
  have b: "reportedAt (analyzeAsSpecified exOrder newValidator)
     = [locDerivedArgument, locBaseArgument,
        locDerivedFunction, locBaseFunction, locBaseFunction]"
    by (simp add: analyzeAsSpecified_def reportedAt_def exOrder_def exAssigning_def exVar_def
          exRead_def exWrite_def newValidator_def visitContract_def
          analyseVariableDeclaration_def report_def checkAllVariablesInitialized_def
          typeError_def)
  have "locBaseArgument \<noteq> locDerivedArgument"
    by (simp add: locBaseArgument_def locDerivedArgument_def)
  with a b have "reportedAt (analyze exOrder newValidator)
                   \<noteq> reportedAt (analyzeAsSpecified exOrder newValidator)"
    by simp
  then have "analyze exOrder newValidator \<noteq> analyzeAsSpecified exOrder newValidator"
    by auto
  with a b show ?thesis by simp
qed

section \<open>What the initialized set holds and who reads it\<close>





lemma withInitialized_fields [simp]:
  "visitedCallables (withInitialized N s) = visitedCallables s"
  "currentConstructor (withInitialized N s) = currentConstructor s"
  "initializationOfImmutableAllowed (withInitialized N s) = initializationOfImmutableAllowed s"
  "inBranch (withInitialized N s) = inBranch s"
  "inLoop (withInitialized N s) = inLoop s"
  by (simp_all add: withInitialized_def)

lemma withInitialized_updates [simp]:
  "(withInitialized N s)\<lparr>inBranch := b\<rparr> = withInitialized N (s\<lparr>inBranch := b\<rparr>)"
  "(withInitialized N s)\<lparr>inLoop := b\<rparr> = withInitialized N (s\<lparr>inLoop := b\<rparr>)"
  "(withInitialized N s)\<lparr>currentConstructor := k\<rparr>
     = withInitialized N (s\<lparr>currentConstructor := k\<rparr>)"
  "(withInitialized N s)\<lparr>initializationOfImmutableAllowed := b\<rparr>
     = withInitialized N (s\<lparr>initializationOfImmutableAllowed := b\<rparr>)"
  "(withInitialized N s)\<lparr>visitedCallables := V\<rparr>
     = withInitialized N (s\<lparr>visitedCallables := V\<rparr>)"
  by (simp_all add: withInitialized_def)




end
